theory Spec2Isabelle
  imports Main
begin

section \<open>Python values and exceptions\<close>

text \<open>
  The values that travel through \<^verbatim>\<open>lazydata/storage/remote.py\<close> untyped: the
  configuration dictionary \<^verbatim>\<open>config.config\<close> (loaded from YAML) and the
  \<^verbatim>\<open>response\<close> dictionary of a botocore \<^verbatim>\<open>ClientError\<close>. A dictionary with
  string keys is an association list read with \<open>map_of\<close>. A \<open>string\<close> is a Python
  \<^verbatim>\<open>str\<close> whose code points are below 256, one \<open>char\<close> per code point.
\<close>

datatype pyval =
    PNone
  | PInt int
  | PStr string
  | PList "pyval list"
  | PDict "(string \<times> pyval) list"

text \<open>
  Exceptions are values. \<open>ClientError\<close> carries \<^verbatim>\<open>e.response\<close>; \<open>OtherError\<close>
  stands for every exception class the code does not name (\<^verbatim>\<open>OSError\<close>,
  botocore's \<^verbatim>\<open>EndpointConnectionError\<close>, \<^verbatim>\<open>ParamValidationError\<close>, ...), with the
  class name as its argument.
\<close>

datatype exn =
    RuntimeError string
  | KeyError string
  | ValueError
  | TypeError
  | AttributeError
  | ClientError pyval
  | OtherError string

text \<open>\<^verbatim>\<open>v[k]\<close> for a string key: only a dictionary can be subscripted by a string.\<close>

fun getitem :: "pyval \<Rightarrow> string \<Rightarrow> exn + pyval" where
  "getitem (PDict d) k = (case map_of d k of None \<Rightarrow> Inl (KeyError k) | Some v \<Rightarrow> Inr v)"
| "getitem PNone k = Inl TypeError"
| "getitem (PInt n) k = Inl TypeError"
| "getitem (PStr s) k = Inl TypeError"
| "getitem (PList xs) k = Inl TypeError"

text \<open>
  \<^verbatim>\<open>for e in v\<close>: a list yields its elements, a dictionary its keys, a string its
  characters; \<^verbatim>\<open>None\<close> and an integer are not iterable.
\<close>

fun py_iter :: "pyval \<Rightarrow> exn + pyval list" where
  "py_iter (PList xs) = Inr xs"
| "py_iter (PDict d) = Inr (map (\<lambda>kv. PStr (fst kv)) d)"
| "py_iter (PStr s) = Inr (map (\<lambda>c. PStr [c]) s)"
| "py_iter PNone = Inl TypeError"
| "py_iter (PInt n) = Inl TypeError"

section \<open>String operations of the standard library\<close>

definition startswith :: "string \<Rightarrow> string \<Rightarrow> bool" where
  "startswith s p = (take (length p) s = p)"

definition ord :: "char \<Rightarrow> nat" where
  "ord c = of_char c"

text \<open>\<^verbatim>\<open>str.isspace\<close> on the code points below 256; it is the set \<^verbatim>\<open>str.strip()\<close> removes.\<close>

definition isspace :: "char \<Rightarrow> bool" where
  "isspace c = (ord c \<in> {9, 10, 11, 12, 13, 28, 29, 30, 31, 32, 133, 160})"

definition strip :: "string \<Rightarrow> string" where
  "strip s = rev (dropWhile isspace (rev (dropWhile isspace s)))"

definition isdigit :: "char \<Rightarrow> bool" where
  "isdigit c = (48 \<le> ord c \<and> ord c \<le> 57)"

text \<open>
  \<^verbatim>\<open>int(s)\<close> for a string, base 10: optional white space, an optional sign, then
  digits, where a single underscore may stand between two digits, then optional white
  space. The white space \<^verbatim>\<open>int\<close> skips is narrower than \<^verbatim>\<open>str.isspace\<close>: the
  separators 28 to 31 are not part of it. (The limit on the number of digits that recent
  interpreters enforce is left out.)
\<close>

definition int_space :: "char \<Rightarrow> bool" where
  "int_space c = (ord c \<in> {9, 10, 11, 12, 13, 32, 133, 160})"

fun digits_value :: "bool \<Rightarrow> string \<Rightarrow> nat \<Rightarrow> nat option" where
  "digits_value prev [] acc = (if prev then Some acc else None)"
| "digits_value prev (c # cs) acc =
     (if isdigit c then digits_value True cs (10 * acc + (ord c - 48))
      else if c = CHR ''_'' \<and> prev then digits_value False cs acc
      else None)"

definition int_of_str :: "string \<Rightarrow> int option" where
  "int_of_str s =
     (let t = rev (dropWhile int_space (rev (dropWhile int_space s)))
      in case t of
           [] \<Rightarrow> None
         | c # cs \<Rightarrow>
             if c = CHR ''-'' then map_option (\<lambda>n. - int n) (digits_value False cs 0)
             else if c = CHR ''+'' then map_option int (digits_value False cs 0)
             else map_option int (digits_value False t 0))"

fun py_int :: "pyval \<Rightarrow> exn + int" where
  "py_int (PInt n) = Inr n"
| "py_int (PStr s) = (case int_of_str s of None \<Rightarrow> Inl ValueError | Some n \<Rightarrow> Inr n)"
| "py_int PNone = Inl TypeError"
| "py_int (PList xs) = Inl TypeError"
| "py_int (PDict d) = Inl TypeError"

text \<open>\<^verbatim>\<open>sep.join(xs)\<close> and \<^verbatim>\<open>s.split(sep)\<close> for the separator \<^verbatim>\<open>/\<close>.\<close>

fun join_sep :: "string list \<Rightarrow> string" where
  "join_sep [] = []"
| "join_sep [x] = x"
| "join_sep (x # y # ys) = x @ CHR ''/'' # join_sep (y # ys)"

fun split_sep :: "string \<Rightarrow> string list" where
  "split_sep [] = [[]]"
| "split_sep (c # cs) =
     (if c = CHR ''/'' then [] # split_sep cs
      else (case split_sep cs of [] \<Rightarrow> [[c]] | x # xs \<Rightarrow> (c # x) # xs))"

section \<open>\<^verbatim>\<open>urllib.parse.urlparse\<close>\<close>

text \<open>
  The parser of the standard library as it was when the repository was written
  (Python 3.7); \<^verbatim>\<open>AWSRemoteStorage.__init__\<close> reads \<^verbatim>\<open>netloc\<close> and \<^verbatim>\<open>path\<close> of its
  result. Later interpreters first delete tab, carriage return and line feed from the
  URL. The check of the network location against Unicode normalisation never fires on
  code points below 256 and is left out.
\<close>

record ParseResult =
  scheme :: string
  netloc :: string
  path :: string
  params :: string
  query :: string
  fragment :: string

definition scheme_chars :: "char \<Rightarrow> bool" where
  "scheme_chars c =
     ((97 \<le> ord c \<and> ord c \<le> 122) \<or> (65 \<le> ord c \<and> ord c \<le> 90) \<or> isdigit c
      \<or> c = CHR ''+'' \<or> c = CHR ''-'' \<or> c = CHR ''.'')"

definition lower_char :: "char \<Rightarrow> char" where
  "lower_char c = (if 65 \<le> ord c \<and> ord c \<le> 90 then char_of (ord c + 32) else c)"

text \<open>\<^verbatim>\<open>s.split(c, 1)\<close> when \<open>c\<close> occurs in \<open>s\<close>: the text in front of its first occurrence and the text after it.\<close>

definition split_first :: "char \<Rightarrow> string \<Rightarrow> string \<times> string" where
  "split_first c s = (takeWhile (\<lambda>x. x \<noteq> c) s, drop 1 (dropWhile (\<lambda>x. x \<noteq> c) s))"

definition netloc_delim :: "char \<Rightarrow> bool" where
  "netloc_delim c = (c = CHR ''/'' \<or> c = CHR ''?'' \<or> c = CHR ''#'')"

text \<open>\<^verbatim>\<open>_splitnetloc(url, 2)\<close>: the text after the two slashes up to the first of \<^verbatim>\<open>/?#\<close>.\<close>

definition splitnetloc :: "string \<Rightarrow> string \<times> string" where
  "splitnetloc url =
     (takeWhile (\<lambda>c. \<not> netloc_delim c) (drop 2 url),
      dropWhile (\<lambda>c. \<not> netloc_delim c) (drop 2 url))"

text \<open>The scheme and the rest, or the empty scheme and the whole URL.\<close>

definition split_scheme :: "string \<Rightarrow> string \<times> string" where
  "split_scheme url =
     (if CHR '':'' \<in> set url \<and> takeWhile (\<lambda>x. x \<noteq> CHR '':'') url \<noteq> [] then
        (let pre = takeWhile (\<lambda>x. x \<noteq> CHR '':'') url;
             rest = drop (length pre + 1) url
         in if pre = ''http'' then (pre, rest)
            else if list_all scheme_chars pre then
              (if rest = [] \<or> list_ex (\<lambda>c. \<not> isdigit c) rest
               then (map lower_char pre, rest) else ([], url))
            else ([], url))
      else ([], url))"

definition urlsplit :: "string \<Rightarrow> exn + (string \<times> string \<times> string \<times> string \<times> string)" where
  "urlsplit url0 =
     (let (sch, url1) = split_scheme url0;
          (nl, url2) = (if take 2 url1 = ''//'' then splitnetloc url1 else ([], url1))
      in if (CHR ''['' \<in> set nl \<and> CHR '']'' \<notin> set nl)
            \<or> (CHR '']'' \<in> set nl \<and> CHR ''['' \<notin> set nl)
         then Inl ValueError
         else
           (let (url3, frag) =
                  (if CHR ''#'' \<in> set url2 then split_first (CHR ''#'') url2 else (url2, []));
                (url4, qry) =
                  (if CHR ''?'' \<in> set url3 then split_first (CHR ''?'') url3 else (url3, []))
            in Inr (sch, nl, url4, qry, frag)))"

definition uses_params :: "string list" where
  "uses_params = ['''', ''ftp'', ''hdl'', ''prospero'', ''http'', ''imap'', ''https'',
     ''shttp'', ''rtsp'', ''rtspu'', ''sip'', ''sips'', ''mms'', ''sftp'', ''tel'']"

text \<open>
  \<^verbatim>\<open>_splitparams\<close>: the parameters start at the first \<^verbatim>\<open>;\<close> of the last path
  segment.
\<close>

definition splitparams :: "string \<Rightarrow> string \<times> string" where
  "splitparams url =
     (if CHR ''/'' \<in> set url then
        (let last_seg = rev (takeWhile (\<lambda>x. x \<noteq> CHR ''/'') (rev url));
             front = take (length url - length last_seg) url
         in if CHR '';'' \<in> set last_seg
            then (front @ fst (split_first (CHR '';'') last_seg),
                  snd (split_first (CHR '';'') last_seg))
            else (url, []))
      else split_first (CHR '';'') url)"

definition urlparse :: "string \<Rightarrow> exn + ParseResult" where
  "urlparse url =
     (case urlsplit url of
        Inl e \<Rightarrow> Inl e
      | Inr (sch, nl, u, qry, frag) \<Rightarrow>
          (let (u', prm) =
                 (if sch \<in> set uses_params \<and> CHR '';'' \<in> set u then splitparams u else (u, []))
           in Inr \<lparr>scheme = sch, netloc = nl, path = u', params = prm,
                    query = qry, fragment = frag\<rparr>))"

section \<open>\<^verbatim>\<open>pathlib.PurePosixPath\<close>\<close>

text \<open>
  \<^verbatim>\<open>str(PurePosixPath(*args))\<close> for string arguments. \<open>splitroot\<close> is the POSIX
  flavour's: the root is \<^verbatim>\<open>//\<close> for exactly two leading slashes, \<^verbatim>\<open>/\<close> for one
  or for more than two, and empty otherwise; there is no drive.
\<close>

definition splitroot :: "string \<Rightarrow> string \<times> string" where
  "splitroot part =
     (if part \<noteq> [] \<and> hd part = CHR ''/'' then
        (let stripped_part = dropWhile (\<lambda>c. c = CHR ''/'') part
         in if length part - length stripped_part = 2 then (''//'', stripped_part)
            else (''/'', stripped_part))
      else ([], part))"

text \<open>The components of one argument: split at \<^verbatim>\<open>/\<close>, without the empty ones and \<^verbatim>\<open>.\<close>\<close>

definition components :: "string \<Rightarrow> string list" where
  "components rel = filter (\<lambda>x. x \<noteq> [] \<and> x \<noteq> ''.'') (split_sep rel)"

text \<open>
  \<^verbatim>\<open>parse_parts\<close> walks the arguments from the last to the first, skips empty ones and
  stops at the first one that has a root: the arguments in front of it are dropped. The
  function takes the arguments already reversed and returns the root and the components
  in reading order.
\<close>

fun parse_parts_rev :: "string list \<Rightarrow> string \<times> string list" where
  "parse_parts_rev [] = ([], [])"
| "parse_parts_rev (part # earlier) =
     (if part = [] then parse_parts_rev earlier
      else if fst (splitroot part) \<noteq> [] then
        (fst (splitroot part), components (snd (splitroot part)))
      else (fst (parse_parts_rev earlier),
            snd (parse_parts_rev earlier) @ components (snd (splitroot part))))"

definition parse_parts :: "string list \<Rightarrow> string \<times> string list" where
  "parse_parts args = parse_parts_rev (rev args)"

text \<open>\<^verbatim>\<open>__str__\<close>: the root and the joined components, or \<^verbatim>\<open>.\<close> for the empty path.\<close>

definition PurePosixPath_str :: "string list \<Rightarrow> string" where
  "PurePosixPath_str args =
     (let (root, parts) = parse_parts args
      in if root \<noteq> [] then root @ join_sep parts
         else if parts = [] then ''.'' else join_sep parts)"

section \<open>Resolving a storage backend\<close>

text \<open>
  \<^verbatim>\<open>Config\<close> (\<^verbatim>\<open>lazydata.config.config\<close>) is used through its dictionary
  \<^verbatim>\<open>config.config\<close> only. The handle keeps the fields \<^verbatim>\<open>__init__\<close> computes; the
  boto3 resource and client it also creates are the \<open>sdk\<close> of the next section.
\<close>

record Config =
  config :: "(string \<times> pyval) list"

record AWSRemoteStorage =
  url :: string
  bucket_name :: string
  path_prefix :: string

definition AWSRemoteStorage_init :: "string \<Rightarrow> exn + AWSRemoteStorage" where
  "AWSRemoteStorage_init remote_url =
     (if \<not> startswith remote_url ''s3://'' then
        Inl (RuntimeError ''AWSRemoteStorage URL needs to start with s3://'')
      else
        (case urlparse remote_url of
           Inl e \<Rightarrow> Inl e
         | Inr p \<Rightarrow>
             (let prefix = strip (path p)
              in Inr \<lparr>url = remote_url, bucket_name = netloc p,
                       path_prefix = (if startswith prefix ''/'' then drop 1 prefix else prefix)\<rparr>)))"

text \<open>
  \<^verbatim>\<open>get_from_url\<close> takes what the configuration holds; a value that is not a string
  has no \<^verbatim>\<open>startswith\<close>.
\<close>

fun get_from_url :: "pyval \<Rightarrow> exn + AWSRemoteStorage" where
  "get_from_url (PStr remote_url) =
     (if startswith remote_url ''s3://'' then AWSRemoteStorage_init remote_url
      else Inl (RuntimeError
        (''Url `'' @ remote_url @ ''` is not supported as a remote storage backend'')))"
| "get_from_url PNone = Inl AttributeError"
| "get_from_url (PInt n) = Inl AttributeError"
| "get_from_url (PList xs) = Inl AttributeError"
| "get_from_url (PDict d) = Inl AttributeError"

definition get_from_config :: "Config \<Rightarrow> exn + AWSRemoteStorage" where
  "get_from_config cfg =
     (case map_of (config cfg) ''remote'' of
        Some remote_url \<Rightarrow> get_from_url remote_url
      | None \<Rightarrow>
          Inl (RuntimeError ''Remote storage backend not configured for this lazydata project.''))"

section \<open>The world outside: S3 and the local file system\<close>

text \<open>
  The calls the code makes to boto3 and to \<^verbatim>\<open>os.path\<close>, as functions on a state
  \<open>'w\<close> of the world that the caller supplies: each returns the exception it raised or
  its result, and the next state. Nothing is assumed of them here.
\<close>

record S3ProgressPercentage =
  p_filename :: string
  p_size :: nat
  p_seen_so_far :: int

record 'w sdk =
  head_bucket :: "string \<Rightarrow> 'w \<Rightarrow> (exn + unit) \<times> 'w"
  head_object :: "string \<Rightarrow> string \<Rightarrow> 'w \<Rightarrow> (exn + unit) \<times> 'w"
  getsize :: "string \<Rightarrow> 'w \<Rightarrow> (exn + nat) \<times> 'w"
  upload_file ::
    "string \<Rightarrow> string \<Rightarrow> string \<Rightarrow> S3ProgressPercentage \<Rightarrow> 'w \<Rightarrow> (exn + unit) \<times> 'w"

text \<open>
  \<^verbatim>\<open>LocalStorage\<close> (\<^verbatim>\<open>lazydata.storage.local\<close>) is used through two methods, taken
  as parameters; each gives the string form of the path it returns.
\<close>

record LocalStorage =
  hash_to_file :: "pyval \<Rightarrow> exn + string"
  hash_to_remote_path :: "pyval \<Rightarrow> exn + string"

section \<open>The progress callback\<close>

text \<open>
  \<open>p_size\<close> is the integer \<^verbatim>\<open>os.path.getsize\<close> returned; the field \<^verbatim>\<open>_size\<close> holds
  its float.
\<close>

definition S3ProgressPercentage_init ::
  "'w sdk \<Rightarrow> string \<Rightarrow> 'w \<Rightarrow> (exn + S3ProgressPercentage) \<times> 'w" where
  "S3ProgressPercentage_init sdk filename w =
     (case getsize sdk filename w of
        (Inl e, w') \<Rightarrow> (Inl e, w')
      | (Inr n, w') \<Rightarrow> (Inr \<lparr>p_filename = filename, p_size = n, p_seen_so_far = 0\<rparr>, w'))"

text \<open>
  \<^verbatim>\<open>__call__\<close> adds to the counter first, then computes the percentage in floating
  point and formats the line it writes. That second part is the parameter \<open>fmt\<close>: it
  gives the line, or the exception the float arithmetic raised (\<^verbatim>\<open>ZeroDivisionError\<close>
  for an empty file). The lock makes the calls of one object run one after the other.
\<close>

definition S3ProgressPercentage_call ::
  "(string \<Rightarrow> int \<Rightarrow> nat \<Rightarrow> exn + string) \<Rightarrow> S3ProgressPercentage \<Rightarrow> int \<Rightarrow> string
     \<Rightarrow> (exn + unit) \<times> S3ProgressPercentage \<times> string" where
  "S3ProgressPercentage_call fmt self bytes_amount stdout =
     (let self' = self\<lparr>p_seen_so_far := p_seen_so_far self + bytes_amount\<rparr>
      in case fmt (p_filename self') (p_seen_so_far self') (p_size self') of
           Inl e \<Rightarrow> (Inl e, self', stdout)
         | Inr line \<Rightarrow> (Inr (), self', stdout @ line))"

text \<open>The calls the transfer makes on one callback object, in order, whatever each raised.\<close>

fun calls ::
  "(string \<Rightarrow> int \<Rightarrow> nat \<Rightarrow> exn + string) \<Rightarrow> S3ProgressPercentage \<Rightarrow> int list \<Rightarrow> string
     \<Rightarrow> S3ProgressPercentage \<times> string" where
  "calls fmt self [] stdout = (self, stdout)"
| "calls fmt self (a # rest) stdout =
     (case S3ProgressPercentage_call fmt self a stdout of
        (r, self', stdout') \<Rightarrow> calls fmt self' rest stdout')"

section \<open>Existence checks and upload\<close>

text \<open>\<^verbatim>\<open>int(e.response['Error']['Code'])\<close>\<close>

definition error_code :: "pyval \<Rightarrow> exn + int" where
  "error_code response =
     (case getitem response ''Error'' of
        Inl e \<Rightarrow> Inl e
      | Inr err \<Rightarrow> (case getitem err ''Code'' of Inl e \<Rightarrow> Inl e | Inr c \<Rightarrow> py_int c))"

text \<open>
  The \<^verbatim>\<open>try\<close>/\<^verbatim>\<open>except\<close> around a head request, written twice in the source
  (\<^verbatim>\<open>check_storage_exists\<close> and \<^verbatim>\<open>upload\<close>): from the outcome of the request to the
  value of \<^verbatim>\<open>exists\<close> after it, or to the exception that leaves the block. Only a
  \<^verbatim>\<open>ClientError\<close> is caught.
\<close>

fun probe_exists :: "exn + unit \<Rightarrow> exn + bool" where
  "probe_exists (Inr u) = Inr True"
| "probe_exists (Inl (ClientError response)) =
     (case error_code response of Inl e \<Rightarrow> Inl e | Inr c \<Rightarrow> Inr (c \<noteq> 404))"
| "probe_exists (Inl e) = Inl e"

definition check_storage_exists :: "'w sdk \<Rightarrow> AWSRemoteStorage \<Rightarrow> 'w \<Rightarrow> (exn + bool) \<times> 'w" where
  "check_storage_exists sdk self w =
     (case head_bucket sdk (bucket_name self) w of (r, w') \<Rightarrow> (probe_exists r, w'))"

text \<open>\<^verbatim>\<open>str(PurePosixPath(self.path_prefix, remote_path))\<close>\<close>

definition s3_key :: "AWSRemoteStorage \<Rightarrow> string \<Rightarrow> string" where
  "s3_key self remote_path = PurePosixPath_str [path_prefix self, remote_path]"

text \<open>\<^verbatim>\<open>[e["hash"] for e in config.config["files"]]\<close>\<close>

fun hashes_of :: "pyval list \<Rightarrow> exn + pyval list" where
  "hashes_of [] = Inr []"
| "hashes_of (e # es) =
     (case getitem e ''hash'' of
        Inl x \<Rightarrow> Inl x
      | Inr h \<Rightarrow> (case hashes_of es of Inl x \<Rightarrow> Inl x | Inr hs \<Rightarrow> Inr (h # hs)))"

definition all_sha256 :: "Config \<Rightarrow> exn + pyval list" where
  "all_sha256 cfg =
     (case getitem (PDict (config cfg)) ''files'' of
        Inl e \<Rightarrow> Inl e
      | Inr files \<Rightarrow> (case py_iter files of Inl e \<Rightarrow> Inl e | Inr es \<Rightarrow> hashes_of es))"

text \<open>
  A transfer is one call of \<^verbatim>\<open>transfer.upload_file\<close>: the local path, the bucket and
  the key it was given. The body of the loop returns the transfers it made.
\<close>

type_synonym transfer = "string \<times> string \<times> string"

definition upload_entry ::
  "'w sdk \<Rightarrow> AWSRemoteStorage \<Rightarrow> LocalStorage \<Rightarrow> pyval \<Rightarrow> 'w
     \<Rightarrow> (exn + unit) \<times> transfer list \<times> 'w" where
  "upload_entry sdk self local sha256 w =
     (case hash_to_file local sha256 of
        Inl e \<Rightarrow> (Inl e, [], w)
      | Inr local_path \<Rightarrow>
     (case hash_to_remote_path local sha256 of
        Inl e \<Rightarrow> (Inl e, [], w)
      | Inr remote_path \<Rightarrow>
     (case head_object sdk (bucket_name self) (s3_key self remote_path) w of
        (r, w1) \<Rightarrow>
     (case probe_exists r of
        Inl e \<Rightarrow> (Inl e, [], w1)
      | Inr exists \<Rightarrow>
          if \<not> exists then
            (case S3ProgressPercentage_init sdk local_path w1 of
               (Inl e, w2) \<Rightarrow> (Inl e, [], w2)
             | (Inr callback, w2) \<Rightarrow>
                 (case upload_file sdk local_path (bucket_name self)
                         (s3_key self remote_path) callback w2 of
                    (r', w3) \<Rightarrow>
                      (r', [(local_path, bucket_name self, s3_key self remote_path)], w3)))
          else (Inr (), [], w1)))))"

fun upload_loop ::
  "'w sdk \<Rightarrow> AWSRemoteStorage \<Rightarrow> LocalStorage \<Rightarrow> pyval list \<Rightarrow> 'w
     \<Rightarrow> (exn + unit) \<times> transfer list \<times> 'w" where
  "upload_loop sdk self local [] w = (Inr (), [], w)"
| "upload_loop sdk self local (sha256 # rest) w =
     (case upload_entry sdk self local sha256 w of
        (Inl e, ts, w') \<Rightarrow> (Inl e, ts, w')
      | (Inr u, ts, w') \<Rightarrow>
          (case upload_loop sdk self local rest w' of
             (r, ts', w'') \<Rightarrow> (r, ts @ ts', w'')))"

definition upload ::
  "'w sdk \<Rightarrow> AWSRemoteStorage \<Rightarrow> LocalStorage \<Rightarrow> Config \<Rightarrow> 'w
     \<Rightarrow> (exn + unit) \<times> transfer list \<times> 'w" where
  "upload sdk self local cfg w =
     (case all_sha256 cfg of
        Inl e \<Rightarrow> (Inl e, [], w)
      | Inr hs \<Rightarrow> upload_loop sdk self local hs w)"

section \<open>Predicates the properties are stated with\<close>


text \<open>
  A store that answers truthfully and loses nothing: \<open>present w b k\<close> says that bucket
  \<open>b\<close> holds an object under key \<open>k\<close> in state \<open>w\<close>. The head request succeeds on a
  present key and fails with code 404 on an absent one, a finished transfer makes its
  key present, and no call removes an object.
\<close>

definition reliable_store :: "'w sdk \<Rightarrow> ('w \<Rightarrow> string \<Rightarrow> string \<Rightarrow> bool) \<Rightarrow> bool" where
  "reliable_store sdk present \<longleftrightarrow>
     (\<forall>b k w. present w b k \<longrightarrow> fst (head_object sdk b k w) = Inr ())
   \<and> (\<forall>b k w. \<not> present w b k \<longrightarrow>
         (\<exists>response. fst (head_object sdk b k w) = Inl (ClientError response)
                      \<and> error_code response = Inr 404))
   \<and> (\<forall>b k w b' k'. present w b' k' \<longrightarrow> present (snd (head_object sdk b k w)) b' k')
   \<and> (\<forall>p w b' k'. present w b' k' \<longrightarrow> present (snd (getsize sdk p w)) b' k')
   \<and> (\<forall>p b k cb w b' k'. present w b' k' \<longrightarrow>
         present (snd (upload_file sdk p b k cb w)) b' k')
   \<and> (\<forall>p b k cb w. fst (upload_file sdk p b k cb w) = Inr () \<longrightarrow>
         present (snd (upload_file sdk p b k cb w)) b k)"

section \<open>Example environments\<close>

text \<open>The response of a \<^verbatim>\<open>ClientError\<close> with a given error code.\<close>

definition code_response :: "string \<Rightarrow> pyval" where
  "code_response c = PDict [(''Error'', PDict [(''Code'', PStr c)])]"

text \<open>
  A scripted world: the state is the list of outcomes the head requests still to come
  will have; local files have three bytes and every transfer succeeds.
\<close>

definition scripted_sdk :: "(exn + unit) list sdk" where
  "scripted_sdk =
     \<lparr>head_bucket = (\<lambda>b w. case w of [] \<Rightarrow> (Inr (), []) | r # rs \<Rightarrow> (r, rs)),
      head_object = (\<lambda>b k w. case w of [] \<Rightarrow> (Inr (), []) | r # rs \<Rightarrow> (r, rs)),
      getsize = (\<lambda>p w. (Inr 3, w)),
      upload_file = (\<lambda>p b k cb w. (Inr (), w))\<rparr>"

text \<open>An in-memory store: the state is the list of the (bucket, key) pairs it holds.\<close>

definition memory_sdk :: "(string \<times> string) list sdk" where
  "memory_sdk =
     \<lparr>head_bucket = (\<lambda>b w. (Inr (), w)),
      head_object = (\<lambda>b k w.
        (if (b, k) \<in> set w then Inr () else Inl (ClientError (code_response ''404'')), w)),
      getsize = (\<lambda>p w. (Inr 3, w)),
      upload_file = (\<lambda>p b k cb w. (Inr (), (b, k) # w))\<rparr>"

definition memory_present :: "(string \<times> string) list \<Rightarrow> string \<Rightarrow> string \<Rightarrow> bool" where
  "memory_present w b k = ((b, k) \<in> set w)"

text \<open>A local store that keeps the blob of hash \<open>h\<close> in \<^verbatim>\<open>/cache/h\<close> and names it \<^verbatim>\<open>data/h\<close> remotely.\<close>

definition example_local :: LocalStorage where
  "example_local =
     \<lparr>hash_to_file = (\<lambda>h. case h of PStr s \<Rightarrow> Inr (''/cache/'' @ s) | _ \<Rightarrow> Inl TypeError),
      hash_to_remote_path = (\<lambda>h. case h of PStr s \<Rightarrow> Inr (''data/'' @ s) | _ \<Rightarrow> Inl TypeError)\<rparr>"

definition example_handle :: AWSRemoteStorage where
  "example_handle = \<lparr>url = ''s3://mybucket/prefix'', bucket_name = ''mybucket'', path_prefix = ''prefix''\<rparr>"

definition example_config :: "string list \<Rightarrow> Config" where
  "example_config hs = \<lparr>config = [(''files'', PList (map (\<lambda>h. PDict [(''hash'', PStr h)]) hs))]\<rparr>"

section \<open>Resolving a backend: properties\<close>

lemma urlparse_error: "urlparse u = Inl e \<Longrightarrow> e = ValueError"
  by (auto simp: urlparse_def urlsplit_def Let_def split: sum.splits prod.splits if_splits)

lemma get_from_url_not_unconfigured:
  "get_from_url v \<noteq>
     Inl (RuntimeError ''Remote storage backend not configured for this lazydata project.'')"
  by (cases v) (auto simp: AWSRemoteStorage_init_def Let_def split: sum.splits dest: urlparse_error)

text \<open>
  C6: \<^verbatim>\<open>get_from_url\<close> on \<^verbatim>\<open>s3://mybucket/prefix\<close> returns a handle with bucket
  \<^verbatim>\<open>mybucket\<close> and prefix \<^verbatim>\<open>prefix\<close>; on a URL that does not start with \<^verbatim>\<open>s3://\<close>
  it raises the error for an unsupported URL; and on every URL that starts with
  \<^verbatim>\<open>s3://\<close> and parses, the bucket is the network location and the prefix is the
  stripped path without its leading slash.
\<close>

theorem get_from_url_dispatch:
  "get_from_url (PStr ''s3://mybucket/prefix'')
     = Inr \<lparr>url = ''s3://mybucket/prefix'', bucket_name = ''mybucket'', path_prefix = ''prefix''\<rparr>
   \<and> (\<forall>remote_url. \<not> startswith remote_url ''s3://'' \<longrightarrow>
         get_from_url (PStr remote_url) = Inl (RuntimeError
           (''Url `'' @ remote_url @ ''` is not supported as a remote storage backend'')))
   \<and> (\<forall>remote_url p. startswith remote_url ''s3://'' \<and> urlparse remote_url = Inr p \<longrightarrow>
         get_from_url (PStr remote_url) =
           Inr \<lparr>url = remote_url, bucket_name = netloc p,
                path_prefix = (if startswith (strip (path p)) ''/''
                               then drop 1 (strip (path p)) else strip (path p))\<rparr>)"
proof (intro conjI allI impI)
  show "get_from_url (PStr ''s3://mybucket/prefix'')
     = Inr \<lparr>url = ''s3://mybucket/prefix'', bucket_name = ''mybucket'', path_prefix = ''prefix''\<rparr>"
    by code_simp
next
  fix remote_url assume "\<not> startswith remote_url ''s3://''"
  then show "get_from_url (PStr remote_url) = Inl (RuntimeError
           (''Url `'' @ remote_url @ ''` is not supported as a remote storage backend''))"
    by simp
next
  fix remote_url p assume "startswith remote_url ''s3://'' \<and> urlparse remote_url = Inr p"
  then show "get_from_url (PStr remote_url) =
           Inr \<lparr>url = remote_url, bucket_name = netloc p,
                path_prefix = (if startswith (strip (path p)) ''/''
                               then drop 1 (strip (path p)) else strip (path p))\<rparr>"
    by (simp add: AWSRemoteStorage_init_def Let_def)
qed

theorem get_from_url_dispatch_witness:
  "\<not> startswith ''ftp://x'' ''s3://''
   \<and> get_from_url (PStr ''ftp://x'')
       = Inl (RuntimeError ''Url `ftp://x` is not supported as a remote storage backend'')
   \<and> startswith ''s3://b/x '' ''s3://''
   \<and> get_from_url (PStr ''s3://b/x '')
       = Inr \<lparr>url = ''s3://b/x '', bucket_name = ''b'', path_prefix = ''x''\<rparr>"
proof -
  have a: "\<not> startswith ''ftp://x'' ''s3://''" by (simp add: startswith_def)
  have b: "startswith ''s3://b/x '' ''s3://''" by (simp add: startswith_def)
  have c: "urlparse ''s3://b/x '' = Inr \<lparr>scheme = ''s3'', netloc = ''b'', path = ''/x '',
             params = [], query = [], fragment = []\<rparr>"
    by code_simp
  have d: "strip ''/x '' = ''/x''" by code_simp
  from get_from_url_dispatch a b c d show ?thesis
    by (simp add: startswith_def)
qed

text \<open>
  C8: \<^verbatim>\<open>get_from_config\<close> raises the not-configured error exactly when the
  configuration has no \<^verbatim>\<open>remote\<close> entry; when it has one, the result is the result
  of \<^verbatim>\<open>get_from_url\<close> on that entry.
\<close>

theorem get_from_config_delegates:
  "(get_from_config cfg =
      Inl (RuntimeError ''Remote storage backend not configured for this lazydata project.'')
    \<longleftrightarrow> map_of (config cfg) ''remote'' = None)
   \<and> (\<forall>remote_url. map_of (config cfg) ''remote'' = Some remote_url
         \<longrightarrow> get_from_config cfg = get_from_url remote_url)"
  by (auto simp: get_from_config_def get_from_url_not_unconfigured split: option.splits)

theorem get_from_config_delegates_witness:
  "map_of (config \<lparr>config = [(''remote'', PStr ''s3://mybucket/prefix'')]\<rparr>) ''remote''
     = Some (PStr ''s3://mybucket/prefix'')
   \<and> get_from_config \<lparr>config = [(''remote'', PStr ''s3://mybucket/prefix'')]\<rparr>
     = get_from_url (PStr ''s3://mybucket/prefix'')
   \<and> get_from_config \<lparr>config = [(''files'', PList [])]\<rparr>
     = Inl (RuntimeError ''Remote storage backend not configured for this lazydata project.'')"
  using get_from_config_delegates [of "\<lparr>config = [(''remote'', PStr ''s3://mybucket/prefix'')]\<rparr>"]
    get_from_config_delegates [of "\<lparr>config = [(''files'', PList [])]\<rparr>"]
  by simp

section \<open>The remote key: properties\<close>

lemma split_sep_nonempty: "split_sep s \<noteq> []"
  by (induction s) (auto split: list.splits)










lemma length_join_Cons:
  "length (join_sep (x # xs)) = length x + (if xs = [] then 0 else Suc (length (join_sep xs)))"
  by (cases xs) auto

lemma length_join_filter: "length (join_sep (filter P xs)) \<le> length (join_sep xs)"
proof (induction xs)
  case Nil
  then show ?case by simp
next
  case (Cons x xs)
  show ?case
  proof (cases "P x")
    case True
    then show ?thesis using Cons by (auto simp: length_join_Cons)
  next
    case False
    then show ?thesis using Cons by (auto simp: length_join_Cons)
  qed
qed

lemma join_split: "join_sep (split_sep s) = s"
proof (induction s)
  case Nil
  then show ?case by simp
next
  case (Cons c s)
  then show ?case
    using split_sep_nonempty [of s]
    by (cases "split_sep s"; cases "tl (split_sep s)") (auto split: list.splits)
qed

lemma length_components: "length (join_sep (components s)) \<le> length s"
  using length_join_filter [of "\<lambda>x. x \<noteq> [] \<and> x \<noteq> ''.''" "split_sep s"]
  by (simp add: components_def join_split)

lemma absolute_str_length:
  assumes "startswith rel ''/''"
  shows "length (PurePosixPath_str [rel]) \<le> length rel"
proof -
  obtain cs where rel: "rel = CHR ''/'' # cs"
    using assms by (cases rel) (auto simp: startswith_def)
  let ?s = "dropWhile (\<lambda>c. c = CHR ''/'') rel"
  have s: "length ?s < length rel"
    using length_dropWhile_le [of "\<lambda>c. c = CHR ''/''" cs] by (simp add: rel)
  have c: "length (join_sep (components ?s)) \<le> length ?s"
    by (rule length_components)
  show ?thesis
    using s c by (auto simp: PurePosixPath_str_def parse_parts_def splitroot_def rel Let_def)
qed

text \<open>
  C9: when the remote-relative path starts with a slash, the join drops the prefix: the
  key is the path of the remote-relative path alone, it starts with a slash, and it is
  not the prefix, a slash and the remote-relative path.
\<close>

theorem s3_key_absolute_remote_path:
  assumes "startswith remote_path ''/''"
  shows "s3_key self remote_path = PurePosixPath_str [remote_path]
       \<and> startswith (s3_key self remote_path) ''/''
       \<and> s3_key self remote_path \<noteq> path_prefix self @ ''/'' @ remote_path"
proof -
  obtain cs where rel: "remote_path = CHR ''/'' # cs"
    using assms by (cases remote_path) (auto simp: startswith_def)
  have root: "fst (splitroot remote_path) \<noteq> []"
    by (simp add: splitroot_def rel Let_def)
  have eq: "s3_key self remote_path = PurePosixPath_str [remote_path]"
    using root by (simp add: s3_key_def PurePosixPath_str_def parse_parts_def rel)
  have "startswith (PurePosixPath_str [remote_path]) ''/''"
    by (auto simp: PurePosixPath_str_def parse_parts_def splitroot_def rel Let_def startswith_def)
  moreover have "length (PurePosixPath_str [remote_path]) < length (path_prefix self @ ''/'' @ remote_path)"
    using absolute_str_length [OF assms] by simp
  ultimately show ?thesis using eq by auto
qed

theorem s3_key_absolute_remote_path_witness:
  "startswith ''/ab/cd1234.bin'' ''/''
   \<and> s3_key \<lparr>url = ''s3://b/data/v1'', bucket_name = ''b'', path_prefix = ''data/v1''\<rparr> ''/ab/cd1234.bin''
       = ''/ab/cd1234.bin''"
proof -
  have a: "startswith ''/ab/cd1234.bin'' ''/''" by (simp add: startswith_def)
  have k: "PurePosixPath_str [''/ab/cd1234.bin''] = ''/ab/cd1234.bin''" by code_simp
  from s3_key_absolute_remote_path [OF a, of "\<lparr>url = ''s3://b/data/v1'', bucket_name = ''b'', path_prefix = ''data/v1''\<rparr>"] a k
  show ?thesis by simp
qed

section \<open>The progress callback: properties\<close>

lemma calls_fields:
  "p_seen_so_far (fst (calls fmt self amounts out)) = p_seen_so_far self + sum_list amounts
   \<and> p_filename (fst (calls fmt self amounts out)) = p_filename self
   \<and> p_size (fst (calls fmt self amounts out)) = p_size self"
proof (induction amounts arbitrary: self out)
  case Nil
  then show ?case by simp
next
  case (Cons a rest)
  show ?case
    by (cases "fmt (p_filename self) (p_seen_so_far self + a) (p_size self)")
       (simp_all add: S3ProgressPercentage_call_def Cons.IH)
qed

text \<open>
  C10: after the calls with amounts \<open>a\<^sub>1, ..., a\<^sub>n\<close> the counter has grown by their
  sum (it is their sum for an object fresh from \<^verbatim>\<open>__init__\<close>), the file name and the
  size are what they were, and further calls with amounts that are not negative do not
  make the counter smaller.
\<close>

theorem progress_counter_accumulates:
  "p_seen_so_far (fst (calls fmt self amounts out)) = p_seen_so_far self + sum_list amounts
   \<and> p_filename (fst (calls fmt self amounts out)) = p_filename self
   \<and> p_size (fst (calls fmt self amounts out)) = p_size self
   \<and> (\<forall>cb w'. S3ProgressPercentage_init sdk filename w = (Inr cb, w') \<longrightarrow>
         p_seen_so_far (fst (calls fmt cb amounts out)) = sum_list amounts)
   \<and> ((\<forall>a\<in>set later. 0 \<le> a) \<longrightarrow>
         p_seen_so_far (fst (calls fmt self amounts out))
           \<le> p_seen_so_far (fst (calls fmt self (amounts @ later) out)))"
proof (intro conjI allI impI)
  fix cb w' assume "S3ProgressPercentage_init sdk filename w = (Inr cb, w')"
  then have "p_seen_so_far cb = 0"
    by (auto simp: S3ProgressPercentage_init_def split: prod.splits sum.splits)
  then show "p_seen_so_far (fst (calls fmt cb amounts out)) = sum_list amounts"
    by (simp add: calls_fields)
next
  assume "\<forall>a\<in>set later. 0 \<le> a"
  then have "0 \<le> sum_list later" by (simp add: sum_list_nonneg)
  then show "p_seen_so_far (fst (calls fmt self amounts out))
           \<le> p_seen_so_far (fst (calls fmt self (amounts @ later) out))"
    by (simp add: calls_fields)
qed (simp_all add: calls_fields)


theorem progress_counter_accumulates_witness:
  "S3ProgressPercentage_init scripted_sdk ''/cache/h1'' []
     = (Inr \<lparr>p_filename = ''/cache/h1'', p_size = 3, p_seen_so_far = 0\<rparr>, [])
   \<and> p_seen_so_far (fst (calls (\<lambda>f s n. Inr [])
        \<lparr>p_filename = ''/cache/h1'', p_size = 3, p_seen_so_far = 0\<rparr> [1, 2] [])) = 3
   \<and> (0::int) \<le> 3
   \<and> p_seen_so_far (fst (calls (\<lambda>f s n. Inr [])
        \<lparr>p_filename = ''/cache/h1'', p_size = 3, p_seen_so_far = 0\<rparr> [1, 2] []))
      \<le> p_seen_so_far (fst (calls (\<lambda>f s n. Inr [])
        \<lparr>p_filename = ''/cache/h1'', p_size = 3, p_seen_so_far = 0\<rparr> ([1, 2] @ [3]) []))"
proof -
  have i: "S3ProgressPercentage_init scripted_sdk ''/cache/h1'' []
     = (Inr \<lparr>p_filename = ''/cache/h1'', p_size = 3, p_seen_so_far = 0\<rparr>, [])"
    by (simp add: S3ProgressPercentage_init_def scripted_sdk_def)
  note t = progress_counter_accumulates [of "\<lambda>f s n. Inr []"
      "\<lparr>p_filename = ''/cache/h1'', p_size = 3, p_seen_so_far = 0\<rparr>" "[1, 2]" "[]"
      scripted_sdk "''/cache/h1''" "[]" "[3]"]
  from i t show ?thesis by simp
qed

section \<open>Facts about the example environments\<close>

lemma error_code_404: "error_code (code_response ''404'') = Inr 404"
  by code_simp

lemma all_sha256_example: "all_sha256 (example_config hs) = Inr (map PStr hs)"
proof -
  have "hashes_of (map (\<lambda>h. PDict [(''hash'', PStr h)]) hs) = Inr (map PStr hs)"
    by (induction hs) auto
  then show ?thesis by (simp add: all_sha256_def example_config_def)
qed

lemma key_h1: "s3_key example_handle ''data/h1'' = ''prefix/data/h1''"
  unfolding s3_key_def example_handle_def by code_simp

lemma key_h2: "s3_key example_handle ''data/h2'' = ''prefix/data/h2''"
  unfolding s3_key_def example_handle_def by code_simp

lemma error_code_403: "error_code (code_response ''403'') = Inr 403"
  by code_simp

lemma probe_exists_other: "\<forall>response. e \<noteq> ClientError response \<Longrightarrow> probe_exists (Inl e) = Inl e"
  by (cases e) auto

section \<open>The existence check of the bucket: properties\<close>

text \<open>
  C5 (as the code has it): \<^verbatim>\<open>check_storage_exists\<close> returns false exactly when
  the head request on the bucket fails with a \<^verbatim>\<open>ClientError\<close> whose code is the
  integer 404. It returns true when the request succeeds, and also when it fails with a
  \<^verbatim>\<open>ClientError\<close> whose code is another integer (403, say). A failure that is not a
  \<^verbatim>\<open>ClientError\<close> reaches the caller as it is.
\<close>

theorem check_storage_exists_outcomes:
  assumes "head_bucket sdk (bucket_name self) w = (r, w')"
  shows "(fst (check_storage_exists sdk self w) = Inr False
            \<longleftrightarrow> (\<exists>response. r = Inl (ClientError response) \<and> error_code response = Inr 404))
       \<and> (r = Inr () \<longrightarrow> fst (check_storage_exists sdk self w) = Inr True)
       \<and> (\<forall>response c. r = Inl (ClientError response) \<and> error_code response = Inr c \<and> c \<noteq> 404
             \<longrightarrow> fst (check_storage_exists sdk self w) = Inr True)
       \<and> (\<forall>e. r = Inl e \<and> (\<forall>response. e \<noteq> ClientError response)
             \<longrightarrow> fst (check_storage_exists sdk self w) = Inl e)"
proof -
  have c: "fst (check_storage_exists sdk self w) = probe_exists r"
    using assms by (simp add: check_storage_exists_def)
  have "probe_exists r = Inr False
          \<longleftrightarrow> (\<exists>response. r = Inl (ClientError response) \<and> error_code response = Inr 404)"
  proof (cases r)
    case (Inl e)
    then show ?thesis by (cases e) (auto split: sum.splits)
  next
    case (Inr u)
    then show ?thesis by simp
  qed
  then show ?thesis
    by (auto simp: c probe_exists_other)
qed

theorem check_storage_exists_outcomes_witness:
  "head_bucket scripted_sdk (bucket_name example_handle) [Inl (ClientError (code_response ''404''))]
     = (Inl (ClientError (code_response ''404'')), [])
   \<and> error_code (code_response ''404'') = Inr 404
   \<and> fst (check_storage_exists scripted_sdk example_handle [Inl (ClientError (code_response ''404''))])
       = Inr False"
proof -
  have h: "head_bucket scripted_sdk (bucket_name example_handle) [Inl (ClientError (code_response ''404''))]
     = (Inl (ClientError (code_response ''404'')), [])"
    by (simp add: scripted_sdk_def)
  from check_storage_exists_outcomes [OF h] h error_code_404 show ?thesis
    by blast
qed

text \<open>
  C5 as stated fails: a head request refused with code 403 does not reach the caller as
  an error, the check returns \<^verbatim>\<open>True\<close>.
\<close>

theorem check_storage_exists_forbidden_counterexample:
  "check_storage_exists scripted_sdk example_handle [Inl (ClientError (code_response ''403''))]
     = (Inr True, [])"
  by (simp add: check_storage_exists_def scripted_sdk_def error_code_403)

section \<open>Upload: one entry\<close>

text \<open>
  C2: for an entry whose paths the local store resolves, when the head request on its
  key succeeds the entry makes no transfer; when the request fails with code 404 and
  the size of the local blob can be read, the entry makes exactly one transfer, of its
  local path to its key in the bucket of the handle, and its outcome is the outcome of
  that transfer.
\<close>

theorem upload_entry_transfers:
  assumes "hash_to_file local h = Inr p"
    and "hash_to_remote_path local h = Inr rp"
    and "head_object sdk (bucket_name self) (s3_key self rp) w = (r, w1)"
  shows "(r = Inr () \<longrightarrow> upload_entry sdk self local h w = (Inr (), [], w1))
       \<and> (\<forall>response cb w2.
            r = Inl (ClientError response) \<and> error_code response = Inr 404
            \<and> S3ProgressPercentage_init sdk p w1 = (Inr cb, w2)
            \<longrightarrow> upload_entry sdk self local h w
                  = (fst (upload_file sdk p (bucket_name self) (s3_key self rp) cb w2),
                     [(p, bucket_name self, s3_key self rp)],
                     snd (upload_file sdk p (bucket_name self) (s3_key self rp) cb w2)))"
  using assms by (auto simp: upload_entry_def split: prod.splits)

theorem upload_entry_transfers_witness:
  "hash_to_file example_local (PStr ''h1'') = Inr ''/cache/h1''
   \<and> hash_to_remote_path example_local (PStr ''h1'') = Inr ''data/h1''
   \<and> head_object scripted_sdk (bucket_name example_handle) (s3_key example_handle ''data/h1'')
        [Inl (ClientError (code_response ''404''))]
       = (Inl (ClientError (code_response ''404'')), [])
   \<and> error_code (code_response ''404'') = Inr 404
   \<and> S3ProgressPercentage_init scripted_sdk ''/cache/h1'' []
       = (Inr \<lparr>p_filename = ''/cache/h1'', p_size = 3, p_seen_so_far = 0\<rparr>, [])
   \<and> upload_entry scripted_sdk example_handle example_local (PStr ''h1'')
        [Inl (ClientError (code_response ''404''))]
       = (Inr (), [(''/cache/h1'', ''mybucket'', ''prefix/data/h1'')], [])
   \<and> head_object scripted_sdk (bucket_name example_handle) (s3_key example_handle ''data/h1'')
        [Inr ()] = (Inr (), [])
   \<and> upload_entry scripted_sdk example_handle example_local (PStr ''h1'') [Inr ()]
       = (Inr (), [], [])"
proof -
  have f: "hash_to_file example_local (PStr ''h1'') = Inr ''/cache/h1''"
    and rp: "hash_to_remote_path example_local (PStr ''h1'') = Inr ''data/h1''"
    by (simp_all add: example_local_def)
  have h404: "head_object scripted_sdk (bucket_name example_handle) (s3_key example_handle ''data/h1'')
        [Inl (ClientError (code_response ''404''))]
       = (Inl (ClientError (code_response ''404'')), [])"
    and hok: "head_object scripted_sdk (bucket_name example_handle)
        (s3_key example_handle ''data/h1'') [Inr ()] = (Inr (), [])"
    by (simp_all add: scripted_sdk_def)
  have i: "S3ProgressPercentage_init scripted_sdk ''/cache/h1'' []
       = (Inr \<lparr>p_filename = ''/cache/h1'', p_size = 3, p_seen_so_far = 0\<rparr>, [])"
    by (simp add: S3ProgressPercentage_init_def scripted_sdk_def)
  have u: "upload_file scripted_sdk ''/cache/h1'' (bucket_name example_handle)
             (s3_key example_handle ''data/h1'')
             \<lparr>p_filename = ''/cache/h1'', p_size = 3, p_seen_so_far = 0\<rparr> [] = (Inr (), [])"
    by (simp add: scripted_sdk_def)
  have b: "bucket_name example_handle = ''mybucket''" by (simp add: example_handle_def)
  note t1 = upload_entry_transfers [OF f rp h404, THEN conjunct2, rule_format,
      of "code_response ''404''" "\<lparr>p_filename = ''/cache/h1'', p_size = 3, p_seen_so_far = 0\<rparr>" "[]"]
  note t2 = upload_entry_transfers [OF f rp hok, THEN conjunct1]
  from t1 t2 f rp h404 hok i u error_code_404 show ?thesis
    by (simp add: key_h1 b)
qed

text \<open>
  C1 (as the code has it): when the head request of an entry fails with a
  \<^verbatim>\<open>ClientError\<close> whose code is an integer other than 404, the entry is passed over
  with no transfer and no error, and the loop goes on with the remaining entries. When
  it fails with an exception that is not a \<^verbatim>\<open>ClientError\<close>, the upload stops with
  that exception and makes no transfer for this entry or any later one.
\<close>

theorem upload_probe_failure:
  assumes "hash_to_file local h = Inr p"
    and "hash_to_remote_path local h = Inr rp"
    and "head_object sdk (bucket_name self) (s3_key self rp) w = (r, w1)"
  shows "(\<forall>response c. r = Inl (ClientError response) \<and> error_code response = Inr c \<and> c \<noteq> 404
            \<longrightarrow> upload_loop sdk self local (h # rest) w = upload_loop sdk self local rest w1)
       \<and> (\<forall>e. r = Inl e \<and> (\<forall>response. e \<noteq> ClientError response)
            \<longrightarrow> upload_loop sdk self local (h # rest) w = (Inl e, [], w1))"
proof (intro conjI allI impI)
  fix response c
  assume "r = Inl (ClientError response) \<and> error_code response = Inr c \<and> c \<noteq> 404"
  then have "upload_entry sdk self local h w = (Inr (), [], w1)"
    using assms by (simp add: upload_entry_def)
  then show "upload_loop sdk self local (h # rest) w = upload_loop sdk self local rest w1"
    by (simp split: prod.splits)
next
  fix e
  assume "r = Inl e \<and> (\<forall>response. e \<noteq> ClientError response)"
  then have "upload_entry sdk self local h w = (Inl e, [], w1)"
    using assms by (simp add: upload_entry_def probe_exists_other)
  then show "upload_loop sdk self local (h # rest) w = (Inl e, [], w1)"
    by simp
qed

theorem upload_probe_failure_witness:
  "hash_to_file example_local (PStr ''h1'') = Inr ''/cache/h1''
   \<and> hash_to_remote_path example_local (PStr ''h1'') = Inr ''data/h1''
   \<and> head_object scripted_sdk (bucket_name example_handle) (s3_key example_handle ''data/h1'')
        [Inl (ClientError (code_response ''403'')), Inl (ClientError (code_response ''404''))]
       = (Inl (ClientError (code_response ''403'')), [Inl (ClientError (code_response ''404''))])
   \<and> error_code (code_response ''403'') = Inr 403 \<and> (403::int) \<noteq> 404
   \<and> upload_loop scripted_sdk example_handle example_local [PStr ''h1'', PStr ''h2'']
        [Inl (ClientError (code_response ''403'')), Inl (ClientError (code_response ''404''))]
       = upload_loop scripted_sdk example_handle example_local [PStr ''h2'']
           [Inl (ClientError (code_response ''404''))]
   \<and> head_object scripted_sdk (bucket_name example_handle) (s3_key example_handle ''data/h1'')
        [Inl (OtherError ''EndpointConnectionError''), Inl (ClientError (code_response ''404''))]
       = (Inl (OtherError ''EndpointConnectionError''), [Inl (ClientError (code_response ''404''))])
   \<and> upload_loop scripted_sdk example_handle example_local [PStr ''h1'', PStr ''h2'']
        [Inl (OtherError ''EndpointConnectionError''), Inl (ClientError (code_response ''404''))]
       = (Inl (OtherError ''EndpointConnectionError''), [], [Inl (ClientError (code_response ''404''))])"
proof -
  have f: "hash_to_file example_local (PStr ''h1'') = Inr ''/cache/h1''"
    and rp: "hash_to_remote_path example_local (PStr ''h1'') = Inr ''data/h1''"
    by (simp_all add: example_local_def)
  have h403: "head_object scripted_sdk (bucket_name example_handle) (s3_key example_handle ''data/h1'')
        [Inl (ClientError (code_response ''403'')), Inl (ClientError (code_response ''404''))]
       = (Inl (ClientError (code_response ''403'')), [Inl (ClientError (code_response ''404''))])"
    and hnet: "head_object scripted_sdk (bucket_name example_handle)
        (s3_key example_handle ''data/h1'')
        [Inl (OtherError ''EndpointConnectionError''), Inl (ClientError (code_response ''404''))]
       = (Inl (OtherError ''EndpointConnectionError''), [Inl (ClientError (code_response ''404''))])"
    by (simp_all add: scripted_sdk_def)
  note t1 = upload_probe_failure [OF f rp h403, of "[PStr ''h2'']", THEN conjunct1, rule_format,
      of "code_response ''403''" 403]
  note t2 = upload_probe_failure [OF f rp hnet, of "[PStr ''h2'']", THEN conjunct2, rule_format,
      of "OtherError ''EndpointConnectionError''"]
  from t1 t2 f rp h403 hnet error_code_403 show ?thesis
    by simp
qed

text \<open>
  C1 as stated fails: with a probe refused with code 403 for the first entry and the
  second entry absent, the upload ends without an error and transfers the second entry.
\<close>

theorem upload_forbidden_probe_counterexample:
  "upload scripted_sdk example_handle example_local (example_config [''h1'', ''h2''])
     [Inl (ClientError (code_response ''403'')), Inl (ClientError (code_response ''404''))]
   = (Inr (), [(''/cache/h2'', ''mybucket'', ''prefix/data/h2'')], [])"
  by (simp add: upload_def all_sha256_example upload_entry_def example_local_def scripted_sdk_def
        error_code_403 error_code_404 S3ProgressPercentage_init_def key_h1 key_h2)
     (simp add: example_handle_def)

section \<open>Upload over a reliable store\<close>

lemma rs_head_present:
  "reliable_store sdk present \<Longrightarrow> present w b k \<Longrightarrow> head_object sdk b k w = (r, w1) \<Longrightarrow> r = Inr ()"
  unfolding reliable_store_def by (metis fst_conv)

lemma rs_head_absent:
  assumes "reliable_store sdk present" "\<not> present w b k" "head_object sdk b k w = (r, w1)"
  shows "probe_exists r = Inr False"
proof -
  have "\<exists>response. fst (head_object sdk b k w) = Inl (ClientError response)
                    \<and> error_code response = Inr 404"
    using assms(1,2) by (simp add: reliable_store_def)
  with assms(3) show ?thesis by auto
qed

lemma rs_head_mono:
  "reliable_store sdk present \<Longrightarrow> head_object sdk b k w = (r, w1) \<Longrightarrow> present w b' k'
     \<Longrightarrow> present w1 b' k'"
  unfolding reliable_store_def by (metis snd_conv)

lemma rs_getsize_mono:
  "reliable_store sdk present \<Longrightarrow> getsize sdk p w = (r, w1) \<Longrightarrow> present w b' k'
     \<Longrightarrow> present w1 b' k'"
  unfolding reliable_store_def by (metis snd_conv)

lemma rs_upload_mono:
  "reliable_store sdk present \<Longrightarrow> upload_file sdk p b k cb w = (r, w1) \<Longrightarrow> present w b' k'
     \<Longrightarrow> present w1 b' k'"
  unfolding reliable_store_def by (metis snd_conv)

lemma rs_upload_present:
  "reliable_store sdk present \<Longrightarrow> upload_file sdk p b k cb w = (Inr (), w1) \<Longrightarrow> present w1 b k"
  unfolding reliable_store_def by (metis fst_conv snd_conv)

lemma init_mono:
  "reliable_store sdk present \<Longrightarrow> S3ProgressPercentage_init sdk p w = (r, w1) \<Longrightarrow> present w b' k'
     \<Longrightarrow> present w1 b' k'"
  by (auto simp: S3ProgressPercentage_init_def split: prod.splits sum.splits dest: rs_getsize_mono)

text \<open>What one pass through the loop body does over a reliable store.\<close>

lemma reliable_entry:
  assumes R: "reliable_store sdk present"
    and E: "upload_entry sdk self local h w = (res, ts, w')"
  shows "present w b' k' \<Longrightarrow> present w' b' k'"
    and "res = Inr () \<Longrightarrow> \<exists>rp. hash_to_remote_path local h = Inr rp
                                  \<and> present w' (bucket_name self) (s3_key self rp)"
    and "t \<in> set ts \<Longrightarrow> ts = [t] \<and> \<not> present w (fst (snd t)) (snd (snd t))
                          \<and> (res = Inr () \<longrightarrow> present w' (fst (snd t)) (snd (snd t)))"
proof -
  show "present w b' k' \<Longrightarrow> present w' b' k'"
    using E R
    by (auto simp: upload_entry_def split: sum.splits prod.splits if_splits
             dest: rs_head_mono init_mono rs_upload_mono)
next
  assume ok: "res = Inr ()"
  from E ok obtain p rp where p: "hash_to_file local h = Inr p"
    and rp: "hash_to_remote_path local h = Inr rp"
    by (auto simp: upload_entry_def split: sum.splits)
  obtain r w1 where H: "head_object sdk (bucket_name self) (s3_key self rp) w = (r, w1)"
    by (cases "head_object sdk (bucket_name self) (s3_key self rp) w")
  show "\<exists>rp. hash_to_remote_path local h = Inr rp \<and> present w' (bucket_name self) (s3_key self rp)"
  proof (cases "present w (bucket_name self) (s3_key self rp)")
    case True
    have "r = Inr ()" using rs_head_present [OF R True H] .
    then have "w' = w1" using E p rp H by (simp add: upload_entry_def)
    then show ?thesis using True rp rs_head_mono [OF R H] by blast
  next
    case False
    have ex: "probe_exists r = Inr False" using rs_head_absent [OF R False H] .
    obtain ri w2 where I: "S3ProgressPercentage_init sdk p w1 = (ri, w2)"
      by (cases "S3ProgressPercentage_init sdk p w1")
    from E ok p rp H ex I obtain cb where cb: "ri = Inr cb"
      by (cases ri) (auto simp: upload_entry_def)
    from E ok p rp H ex I cb
    have "upload_file sdk p (bucket_name self) (s3_key self rp) cb w2 = (Inr (), w')"
      by (auto simp: upload_entry_def split: prod.splits)
    then show ?thesis using rp rs_upload_present [OF R] by blast
  qed
next
  assume t: "t \<in> set ts"
  from E t obtain p rp where p: "hash_to_file local h = Inr p"
    and rp: "hash_to_remote_path local h = Inr rp"
    by (auto simp: upload_entry_def split: sum.splits)
  obtain r w1 where H: "head_object sdk (bucket_name self) (s3_key self rp) w = (r, w1)"
    by (cases "head_object sdk (bucket_name self) (s3_key self rp) w")
  from E t p rp H have ex: "probe_exists r = Inr False"
    by (auto simp: upload_entry_def split: sum.splits if_splits prod.splits)
  have absent: "\<not> present w (bucket_name self) (s3_key self rp)"
  proof
    assume pr: "present w (bucket_name self) (s3_key self rp)"
    have "r = Inr ()" using rs_head_present [OF R pr H] .
    with ex show False by simp
  qed
  obtain ri w2 where I: "S3ProgressPercentage_init sdk p w1 = (ri, w2)"
    by (cases "S3ProgressPercentage_init sdk p w1")
  from E t p rp H ex I obtain cb where cb: "ri = Inr cb"
    by (cases ri) (auto simp: upload_entry_def)
  from E p rp H ex I cb
  have ts: "ts = [(p, bucket_name self, s3_key self rp)]"
    and up: "upload_file sdk p (bucket_name self) (s3_key self rp) cb w2 = (res, w')"
    by (auto simp: upload_entry_def split: prod.splits)
  from ts t have teq: "t = (p, bucket_name self, s3_key self rp)" by simp
  have "res = Inr () \<longrightarrow> present w' (bucket_name self) (s3_key self rp)"
    using up rs_upload_present [OF R] by blast
  then show "ts = [t] \<and> \<not> present w (fst (snd t)) (snd (snd t))
              \<and> (res = Inr () \<longrightarrow> present w' (fst (snd t)) (snd (snd t)))"
    using ts teq absent by simp
qed






lemma distinct_filter_le_1: "distinct (map f xs) \<Longrightarrow> length (filter (\<lambda>t. f t = x) xs) \<le> 1"
proof (induction xs)
  case Nil
  then show ?case by simp
next
  case (Cons a xs)
  show ?case
  proof (cases "f a = x")
    case True
    then have "x \<notin> f ` set xs" using Cons.prems by auto
    then have "filter (\<lambda>t. f t = x) xs = []" by (auto simp: filter_empty_conv)
    then show ?thesis using True by simp
  next
    case False
    then show ?thesis using Cons by simp
  qed
qed

lemma reliable_loop_transfers:
  assumes R: "reliable_store sdk present"
  shows "upload_loop sdk self local hs w = (res, ts, w')
         \<Longrightarrow> distinct (map snd ts) \<and> (\<forall>t\<in>set ts. \<not> present w (fst (snd t)) (snd (snd t)))"
proof (induction hs arbitrary: w res ts w')
  case Nil
  then show ?case by simp
next
  case (Cons h hs)
  obtain r1 ts1 w1 where E: "upload_entry sdk self local h w = (r1, ts1, w1)"
    by (cases "upload_entry sdk self local h w")
  have one: "ts1 = [] \<or> (\<exists>t. ts1 = [t])"
    using reliable_entry(3) [OF R E] by (cases ts1) auto
  have absent1: "\<forall>t\<in>set ts1. \<not> present w (fst (snd t)) (snd (snd t))"
    using reliable_entry(3) [OF R E] by blast
  show ?case
  proof (cases r1)
    case (Inl e)
    with Cons.prems E have "ts = ts1" by simp
    then show ?thesis using one absent1 by auto
  next
    case (Inr u)
    obtain r2 ts2 w2 where L: "upload_loop sdk self local hs w1 = (r2, ts2, w2)"
      by (cases "upload_loop sdk self local hs w1")
    from Cons.prems E Inr L have ts: "ts = ts1 @ ts2" by simp
    from Cons.IH [OF L] have d2: "distinct (map snd ts2)"
      and absent2: "\<forall>t\<in>set ts2. \<not> present w1 (fst (snd t)) (snd (snd t))" by auto
    have present1: "\<forall>t\<in>set ts1. present w1 (fst (snd t)) (snd (snd t))"
      using reliable_entry(3) [OF R E] Inr by auto
    have disjoint: "snd t1 \<noteq> snd t2" if "t1 \<in> set ts1" "t2 \<in> set ts2" for t1 t2
    proof
      assume eq: "snd t1 = snd t2"
      have "present w1 (fst (snd t1)) (snd (snd t1))" using present1 that(1) by blast
      moreover have "\<not> present w1 (fst (snd t2)) (snd (snd t2))" using absent2 that(2) by blast
      ultimately show False using eq by simp
    qed
    have a2: "\<forall>t\<in>set ts2. \<not> present w (fst (snd t)) (snd (snd t))"
      using absent2 reliable_entry(1) [OF R E] by blast
    have d1: "distinct (map snd ts1)" using one by auto
    have "set (map snd ts1) \<inter> set (map snd ts2) = {}"
    proof (rule ccontr)
      assume "set (map snd ts1) \<inter> set (map snd ts2) \<noteq> {}"
      then obtain x where "x \<in> set (map snd ts1)" "x \<in> set (map snd ts2)" by blast
      then obtain t1 t2 where "t1 \<in> set ts1" "t2 \<in> set ts2" "snd t1 = x" "snd t2 = x"
        by (auto simp: image_iff)
      then show False using disjoint by metis
    qed
    then have "distinct (map snd (ts1 @ ts2))" using d1 d2 by simp
    moreover have "\<forall>t\<in>set (ts1 @ ts2). \<not> present w (fst (snd t)) (snd (snd t))"
      using absent1 a2 by (simp add: ball_Un)
    ultimately show ?thesis by (simp only: ts)
  qed
qed

lemma entry_transfer_key:
  assumes "hash_to_remote_path local h = Inr rp"
    and "t \<in> set (fst (snd (upload_entry sdk self local h w)))"
  shows "snd t = (bucket_name self, s3_key self rp)"
proof -
  obtain res ts w' where E: "upload_entry sdk self local h w = (res, ts, w')"
    by (cases "upload_entry sdk self local h w")
  with assms(2) have t: "t \<in> set ts" by simp
  from E t obtain p where p: "hash_to_file local h = Inr p"
    by (cases "hash_to_file local h") (auto simp: upload_entry_def)
  obtain r w1 where H: "head_object sdk (bucket_name self) (s3_key self rp) w = (r, w1)"
    by (cases "head_object sdk (bucket_name self) (s3_key self rp) w")
  from E t p assms(1) H obtain ex where ex: "probe_exists r = Inr ex"
    by (cases "probe_exists r") (auto simp: upload_entry_def)
  from E t p assms(1) H ex have nex: "\<not> ex"
    by (cases ex) (auto simp: upload_entry_def)
  obtain ri w2 where I: "S3ProgressPercentage_init sdk p w1 = (ri, w2)"
    by (cases "S3ProgressPercentage_init sdk p w1")
  from E t p assms(1) H ex nex I obtain cb where cb: "ri = Inr cb"
    by (cases ri) (auto simp: upload_entry_def)
  obtain r' w3
    where U: "upload_file sdk p (bucket_name self) (s3_key self rp) cb w2 = (r', w3)"
    by (cases "upload_file sdk p (bucket_name self) (s3_key self rp) cb w2")
  from E p assms(1) H ex nex I cb U
  have "ts = [(p, bucket_name self, s3_key self rp)]"
    by (simp add: upload_entry_def)
  with t show ?thesis by simp
qed

text \<open>
  C4: whatever the state, a transfer made for an entry goes to the bucket of the handle
  under the key computed from the entry's hash, so two entries with one hash have one
  key; and over a reliable store a run of \<^verbatim>\<open>upload\<close> makes at most one transfer
  to any one key.
\<close>

theorem upload_dedup:
  "(\<forall>h rp w1. hash_to_remote_path local h = Inr rp \<longrightarrow>
       (\<forall>t\<in>set (fst (snd (upload_entry sdk self local h w1))).
           snd t = (bucket_name self, s3_key self rp)))
   \<and> (reliable_store sdk present \<and> upload sdk self local cfg w = (res, ts, w')
        \<longrightarrow> length (filter (\<lambda>t. snd t = (b, k)) ts) \<le> 1)"
proof (intro conjI allI impI)
  fix h rp w1
  assume "hash_to_remote_path local h = Inr rp"
  then show "\<forall>t\<in>set (fst (snd (upload_entry sdk self local h w1))).
           snd t = (bucket_name self, s3_key self rp)"
    by (intro ballI) (rule entry_transfer_key)
next
  assume a: "reliable_store sdk present \<and> upload sdk self local cfg w = (res, ts, w')"
  show "length (filter (\<lambda>t. snd t = (b, k)) ts) \<le> 1"
  proof (cases "all_sha256 cfg")
    case (Inl e)
    with a show ?thesis by (simp add: upload_def)
  next
    case (Inr hs)
    with a have L: "upload_loop sdk self local hs w = (res, ts, w')" by (simp add: upload_def)
    from a have R: "reliable_store sdk present" by simp
    have "distinct (map snd ts)" using reliable_loop_transfers [OF R L] by simp
    then show ?thesis by (rule distinct_filter_le_1)
  qed
qed

theorem upload_dedup_witness:
  "hash_to_remote_path example_local (PStr ''h1'') = Inr ''data/h1''
   \<and> fst (snd (upload_entry memory_sdk example_handle example_local (PStr ''h1'') []))
       = [(''/cache/h1'', ''mybucket'', ''prefix/data/h1'')]
   \<and> reliable_store memory_sdk memory_present
   \<and> upload memory_sdk example_handle example_local (example_config [''h1'', ''h2'', ''h1'']) []
       = (Inr (), [(''/cache/h1'', ''mybucket'', ''prefix/data/h1''),
                   (''/cache/h2'', ''mybucket'', ''prefix/data/h2'')],
          [(''mybucket'', ''prefix/data/h2''), (''mybucket'', ''prefix/data/h1'')])
   \<and> length (filter (\<lambda>t. snd t = (''mybucket'', ''prefix/data/h1''))
        [(''/cache/h1'', ''mybucket'', ''prefix/data/h1''),
         (''/cache/h2'', ''mybucket'', ''prefix/data/h2'')]) \<le> 1"
proof -
  have r: "reliable_store memory_sdk memory_present"
    by (simp add: reliable_store_def memory_sdk_def memory_present_def error_code_404)
  have p: "hash_to_remote_path example_local (PStr ''h1'') = Inr ''data/h1''"
    by (simp add: example_local_def)
  have e: "fst (snd (upload_entry memory_sdk example_handle example_local (PStr ''h1'') []))
       = [(''/cache/h1'', ''mybucket'', ''prefix/data/h1'')]"
    by (simp add: upload_entry_def example_local_def memory_sdk_def
          error_code_404 S3ProgressPercentage_init_def key_h1)
       (simp add: example_handle_def)
  have u: "upload memory_sdk example_handle example_local (example_config [''h1'', ''h2'', ''h1'']) []
       = (Inr (), [(''/cache/h1'', ''mybucket'', ''prefix/data/h1''),
                   (''/cache/h2'', ''mybucket'', ''prefix/data/h2'')],
          [(''mybucket'', ''prefix/data/h2''), (''mybucket'', ''prefix/data/h1'')])"
    by (simp add: upload_def all_sha256_example upload_entry_def example_local_def memory_sdk_def
          error_code_404 S3ProgressPercentage_init_def key_h1 key_h2)
       (simp add: example_handle_def)
  note t = upload_dedup [of example_local memory_sdk example_handle memory_present
      "example_config [''h1'', ''h2'', ''h1'']" "[]" "Inr ()"
      "[(''/cache/h1'', ''mybucket'', ''prefix/data/h1''),
        (''/cache/h2'', ''mybucket'', ''prefix/data/h2'')]"
      "[(''mybucket'', ''prefix/data/h2''), (''mybucket'', ''prefix/data/h1'')]"
      "''mybucket''" "''prefix/data/h1''"]
  from t r u p e show ?thesis by simp
qed

end
